theory Spec2Isabelle
  imports Complex_Main "HOL-Library.Word"
begin

section \<open>Feature tracking application: data model\<close>

text \<open>
  The program is one class, \<open>FeatureTrackingApp\<close>, whose member functions are called by an
  application framework: \<open>setup\<close> once, then \<open>update\<close> and \<open>draw\<close> once per tick, and
  \<open>mouseDown\<close> on mouse events. The numerical work is done by a vision library
  (\<open>goodFeaturesToTrack\<close>, \<open>calcOpticalFlowPyrLK\<close>, \<open>toOcv\<close>); these are parameters of the
  model, collected in the record \<open>vision\<close>. Camera surfaces and image matrices are opaque
  to the program, so they are type variables.
\<close>

text \<open>\<open>cv::Point2f\<close>: the program only stores, copies and forwards points.\<close>

type_synonym Point2f = "real \<times> real"

text \<open>
  The library calls made by the program, in order, with their arguments. This is a ghost
  field of the state: the source has no such list, it records which collaborator was
  invoked.
\<close>

datatype 'mat call =
    Detect 'mat nat real real
  | Flow 'mat 'mat "Point2f list" "Point2f list"

record ('surf, 'mat) vision =
  toOcv :: "'surf \<Rightarrow> 'mat"
  goodFeaturesToTrack :: "'mat \<Rightarrow> nat \<Rightarrow> real \<Rightarrow> real \<Rightarrow> Point2f list"
  calcOpticalFlowPyrLK ::
    "'mat \<Rightarrow> 'mat \<Rightarrow> Point2f list \<Rightarrow> Point2f list \<Rightarrow> Point2f list \<times> 8 word list \<times> real list"

text \<open>
  The members of the class. \<open>mCapture\<close> is the capture handle (a shared pointer): only
  whether it is null matters. \<open>mPrevFrame\<close> is \<open>None\<close> when its data pointer is null; a
  frame converted from a captured 640 x 480 surface has data. \<open>logged\<close> is the diagnostic
  stream written by \<open>CI_LOG_EXCEPTION\<close>.
\<close>

record ('surf, 'mat) app =
  mCapture :: bool
  mTexture :: "'surf option"
  mPrevFeatures :: "Point2f list"
  mFeatures :: "Point2f list"
  mPrevFrame :: "'mat option"
  mSurface :: "'surf option"
  mFeatureStatuses :: "8 word list"
  logged :: "string list"
  calls :: "'mat call list"

text \<open>
  What the framework and the camera supply on one tick: the value of
  \<open>getElapsedFrames()\<close> (a 32-bit unsigned counter) and, when the camera has a new frame,
  the surface that \<open>checkNewFrame()\<close> / \<open>getSurface()\<close> deliver.
\<close>

record 'surf tick =
  elapsedFrames :: "32 word"
  newFrame :: "'surf option"

definition SAMPLE_WINDOW_MOD :: nat where
  "SAMPLE_WINDOW_MOD = 300"

definition MAX_FEATURES :: nat where
  "MAX_FEATURES = 300"

text \<open>
  The last two arguments of the call on line 161 are literals in the source; the comment
  above the call names them quality level and min distance.
\<close>

definition qualityLevel :: real where
  "qualityLevel = 0.005"

definition minDistance :: real where
  "minDistance = 3.0"

section \<open>setup\<close>

text \<open>
  The \<open>try\<close> block of \<open>setup\<close> has three outcomes: \<open>Capture::create\<close> throws (the handle
  is never assigned), \<open>start\<close> throws (the handle is assigned already), or both succeed.
  Either exception is caught by the one handler, which logs it; \<open>mPrevFrame.data = NULL\<close>
  runs in every case. The vectors and the surface are default-constructed.
\<close>

datatype capture_init = CreateThrows | StartThrows | Started

definition setup_app :: "capture_init \<Rightarrow> ('surf, 'mat) app" where
  "setup_app r =
     \<lparr> mCapture = (r \<noteq> CreateThrows),
       mTexture = None,
       mPrevFeatures = [],
       mFeatures = [],
       mPrevFrame = None,
       mSurface = None,
       mFeatureStatuses = [],
       logged = (if r = Started then [] else [''Failed to init capture '']),
       calls = [] \<rparr>"

section \<open>mouseDown\<close>

text \<open>The body of \<open>mouseDown\<close> is commented out entirely.\<close>

definition mouseDown :: "'ev \<Rightarrow> ('surf, 'mat) app \<Rightarrow> ('surf, 'mat) app" where
  "mouseDown event s = s"

section \<open>update and findOpticalFlow\<close>

text \<open>Lines 147-162: choose new features when there are none or on every 300th frame.\<close>

definition detect_step ::
  "('surf, 'mat) vision \<Rightarrow> 32 word \<Rightarrow> 'mat \<Rightarrow> ('surf, 'mat) app \<Rightarrow> ('surf, 'mat) app" where
  "detect_step V e curFrame s =
     (if mFeatures s = [] \<or> unat e mod SAMPLE_WINDOW_MOD = 0
      then s\<lparr> mFeatures := goodFeaturesToTrack V curFrame MAX_FEATURES qualityLevel minDistance,
              calls := calls s @ [Detect curFrame MAX_FEATURES qualityLevel minDistance] \<rparr>
      else s)"

text \<open>Line 166: \<open>mPrevFeatures = mFeatures\<close>.\<close>

definition save_step :: "('surf, 'mat) app \<Rightarrow> ('surf, 'mat) app" where
  "save_step s = s\<lparr> mPrevFeatures := mFeatures s \<rparr>"

text \<open>
  Lines 169-170: the estimator reads the two frames and \<open>mPrevFeatures\<close>, and writes
  \<open>mFeatures\<close> (passed in and out), \<open>mFeatureStatuses\<close> and the local \<open>errors\<close>, which is
  dropped.
\<close>

definition flow_step ::
  "('surf, 'mat) vision \<Rightarrow> 'mat \<Rightarrow> 'mat \<Rightarrow> ('surf, 'mat) app \<Rightarrow> ('surf, 'mat) app" where
  "flow_step V prevFrame curFrame s =
     (if mFeatures s \<noteq> []
      then (case calcOpticalFlowPyrLK V prevFrame curFrame (mPrevFeatures s) (mFeatures s) of
              (nextPts, status, errors) \<Rightarrow>
                s\<lparr> mFeatures := nextPts,
                   mFeatureStatuses := status,
                   calls := calls s @ [Flow prevFrame curFrame (mPrevFeatures s) (mFeatures s)] \<rparr>)
      else s)"

definition findOpticalFlow ::
  "('surf, 'mat) vision \<Rightarrow> 32 word \<Rightarrow> ('surf, 'mat) app \<Rightarrow> ('surf, 'mat) app" where
  "findOpticalFlow V e s =
     (case mSurface s of
        None \<Rightarrow> s
      | Some surface \<Rightarrow>
          (let curFrame = toOcv V surface;
               s' = (case mPrevFrame s of
                       Some prevFrame \<Rightarrow>
                         flow_step V prevFrame curFrame (save_step (detect_step V e curFrame s))
                     | None \<Rightarrow> s)
           in s'\<lparr> mPrevFrame := Some curFrame \<rparr>))"

text \<open>
  \<open>update\<close>, lines 115-124: the surface and the texture are replaced only when the handle
  is non-null and the camera has a new frame. Line 127: \<open>findOpticalFlow\<close> is called in
  every case.
\<close>

definition capture_step :: "'surf tick \<Rightarrow> ('surf, 'mat) app \<Rightarrow> ('surf, 'mat) app" where
  "capture_step t s =
     (if mCapture s
      then (case newFrame t of
              Some frame \<Rightarrow> s\<lparr> mSurface := Some frame, mTexture := Some frame \<rparr>
            | None \<Rightarrow> s)
      else s)"

definition update ::
  "('surf, 'mat) vision \<Rightarrow> 'surf tick \<Rightarrow> ('surf, 'mat) app \<Rightarrow> ('surf, 'mat) app" where
  "update V t s = findOpticalFlow V (elapsedFrames t) (capture_step t s)"

text \<open>The application after \<open>setup\<close> and a sequence of ticks.\<close>

definition run ::
  "('surf, 'mat) vision \<Rightarrow> capture_init \<Rightarrow> 'surf tick list \<Rightarrow> ('surf, 'mat) app" where
  "run V r ticks = foldl (\<lambda>s t. update V t s) (setup_app r) ticks"

text \<open>The library calls made by one tick: what \<open>update\<close> appends to \<open>calls\<close>.\<close>

definition tick_calls ::
  "('surf, 'mat) vision \<Rightarrow> 'surf tick \<Rightarrow> ('surf, 'mat) app \<Rightarrow> 'mat call list" where
  "tick_calls V t s = drop (length (calls s)) (calls (update V t s))"

fun is_detect :: "'mat call \<Rightarrow> bool" where
  "is_detect (Detect f n q d) = True"
| "is_detect (Flow p c pp np) = False"

section \<open>draw\<close>

datatype 'surf prim =
    Clear real real real
  | SetColor real real real real
  | DrawTexture 'surf
  | StrokedCircle Point2f real
  | SolidCircle Point2f real
  | BeginLines
  | Vertex Point2f
  | EndLines

text \<open>Indexing a \<open>std::vector\<close> past its size is undefined behaviour: an error of the model.\<close>

datatype error = OutOfBounds

text \<open>
  Lines 209-214: the loop over \<open>idx < mFeatures.size()\<close>, reading \<open>mFeatureStatuses[idx]\<close>
  and, where that is nonzero, \<open>mFeatures[idx]\<close> and \<open>mPrevFeatures[idx]\<close>.
\<close>

function flow_lines ::
  "Point2f list \<Rightarrow> Point2f list \<Rightarrow> 8 word list \<Rightarrow> nat \<Rightarrow> error + 'surf prim list" where
  "flow_lines feats prev st idx =
     (if idx < length feats
      then (if idx < length st
            then (if st ! idx \<noteq> 0
                  then (if idx < length prev
                        then (case flow_lines feats prev st (idx + 1) of
                                Inl e \<Rightarrow> Inl e
                              | Inr vs \<Rightarrow> Inr (Vertex (feats ! idx) # Vertex (prev ! idx) # vs))
                        else Inl OutOfBounds)
                  else flow_lines feats prev st (idx + 1))
            else Inl OutOfBounds)
      else Inr [])"
  by pat_completeness auto
termination
  by (relation "measure (\<lambda>(feats, prev, st, idx). length feats - idx)") auto

declare flow_lines.simps [simp del]

definition draw :: "('surf, 'mat) app \<Rightarrow> error + 'surf prim list" where
  "draw s =
     (case flow_lines (mFeatures s) (mPrevFeatures s) (mFeatureStatuses s) 0 of
        Inl e \<Rightarrow> Inl e
      | Inr vs \<Rightarrow>
          Inr ([Clear 0 0 0, SetColor 1 1 1 0.55]
               @ (case mTexture s of Some tex \<Rightarrow> [DrawTexture tex] | None \<Rightarrow> [])
               @ [SetColor 1 0 0 0.55]
               @ map (\<lambda>p. StrokedCircle p 3) (mPrevFeatures s)
               @ [SetColor 0 0 1 0.5]
               @ map (\<lambda>p. SolidCircle p 3) (mFeatures s)
               @ [SetColor 0 1 0 0.5, BeginLines]
               @ vs
               @ [EndLines]))"

text \<open>The points passed to \<open>gl::vertex\<close> by a drawing, in order.\<close>

fun vertex_of :: "'surf prim \<Rightarrow> Point2f list" where
  "vertex_of (Vertex p) = [p]"
| "vertex_of other = []"

definition line_vertices :: "'surf prim list \<Rightarrow> Point2f list" where
  "line_vertices out = concat (map vertex_of out)"

text \<open>
  The contract of the estimator in the vision library: the output points and the status
  flags are parallel to the input points.
\<close>

definition lk_contract :: "('surf, 'mat) vision \<Rightarrow> bool" where
  "lk_contract V \<longleftrightarrow>
     (\<forall>p c pp np. case calcOpticalFlowPyrLK V p c pp np of
        (nextPts, status, errors) \<Rightarrow>
          length nextPts = length pp \<and> length status = length pp)"


section \<open>Invariants of the reachable states\<close>

text \<open>
  A surface is stored exactly when a previous frame is, only a non-null handle stores
  one, and before the first frame nothing has been detected, tracked or called.
\<close>

definition frames_inv :: "('surf, 'mat) app \<Rightarrow> bool" where
  "frames_inv s \<longleftrightarrow>
     (mSurface s = None \<longleftrightarrow> mPrevFrame s = None) \<and>
     (mSurface s \<noteq> None \<longrightarrow> mCapture s) \<and>
     (mPrevFrame s = None \<longrightarrow>
        mFeatures s = [] \<and> mPrevFeatures s = [] \<and> mFeatureStatuses s = [] \<and> calls s = [])"

definition lengths_inv :: "('surf, 'mat) app \<Rightarrow> bool" where
  "lengths_inv s \<longleftrightarrow>
     length (mPrevFeatures s) = length (mFeatures s) \<and>
     (mFeatures s = [] \<or> length (mFeatureStatuses s) = length (mFeatures s))"

section \<open>A concrete vision library\<close>

text \<open>
  For evaluating the model: frames are numbered, the detector finds one corner whose
  abscissa is the frame number, and the estimator moves every point one unit to the right
  and reports each as matched, as in the linear-motion scenario of the specification.
\<close>

definition shift_vision :: "(nat, nat) vision" where
  "shift_vision =
     \<lparr> toOcv = (\<lambda>surface. surface),
       goodFeaturesToTrack = (\<lambda>img maxCorners quality minDist. [(real img, 0)]),
       calcOpticalFlowPyrLK =
         (\<lambda>prevImg nextImg prevPts nextPts.
            (map (\<lambda>(x, y). (x + 1, y)) prevPts, map (\<lambda>p. 1) prevPts, map (\<lambda>p. 0) prevPts)) \<rparr>"

text \<open>
  A state in which two features are tracked and the estimator lost the second one.
\<close>

definition tracked_pair :: "('surf, 'mat) app" where
  "tracked_pair =
     \<lparr> mCapture = True,
       mTexture = None,
       mPrevFeatures = [(0, 0), (5, 5)],
       mFeatures = [(1, 0), (6, 5)],
       mPrevFrame = None,
       mSurface = None,
       mFeatureStatuses = [1, 0],
       logged = [],
       calls = [] \<rparr>"

definition frame_tick :: "32 word \<Rightarrow> 'surf \<Rightarrow> 'surf tick" where
  "frame_tick e frame = \<lparr> elapsedFrames = e, newFrame = Some frame \<rparr>"

definition idle_tick :: "32 word \<Rightarrow> 'surf tick" where
  "idle_tick e = \<lparr> elapsedFrames = e, newFrame = None \<rparr>"

section \<open>Helper lemmas\<close>

subsection \<open>The calls made by one tick\<close>

lemma calls_findOpticalFlow:
  "calls (findOpticalFlow V e s) =
     calls s @
     (case (mSurface s, mPrevFrame s) of
        (Some surface, Some p) \<Rightarrow>
          (if mFeatures s = [] \<or> unat e mod SAMPLE_WINDOW_MOD = 0
           then Detect (toOcv V surface) MAX_FEATURES qualityLevel minDistance #
                (let fs = goodFeaturesToTrack V (toOcv V surface) MAX_FEATURES qualityLevel minDistance
                 in if fs \<noteq> [] then [Flow p (toOcv V surface) fs fs] else [])
           else [Flow p (toOcv V surface) (mFeatures s) (mFeatures s)])
      | _ \<Rightarrow> [])"
  by (simp add: findOpticalFlow_def Let_def flow_step_def save_step_def detect_step_def
      split: option.splits prod.splits)

lemma capture_step_fields [simp]:
  "calls (capture_step t s) = calls s"
  "mPrevFrame (capture_step t s) = mPrevFrame s"
  "mFeatures (capture_step t s) = mFeatures s"
  "mPrevFeatures (capture_step t s) = mPrevFeatures s"
  "mFeatureStatuses (capture_step t s) = mFeatureStatuses s"
  "mCapture (capture_step t s) = mCapture s"
  "logged (capture_step t s) = logged s"
  by (simp_all add: capture_step_def split: option.splits)

lemma mSurface_capture_step:
  "mSurface (capture_step t s) =
     (if mCapture s then (case newFrame t of Some frame \<Rightarrow> Some frame | None \<Rightarrow> mSurface s)
      else mSurface s)"
  by (simp add: capture_step_def split: option.splits)

lemma tick_calls_eq:
  "tick_calls V t s =
     (case (mSurface (capture_step t s), mPrevFrame s) of
        (Some surface, Some p) \<Rightarrow>
          (if mFeatures s = [] \<or> unat (elapsedFrames t) mod SAMPLE_WINDOW_MOD = 0
           then Detect (toOcv V surface) MAX_FEATURES qualityLevel minDistance #
                (let fs = goodFeaturesToTrack V (toOcv V surface) MAX_FEATURES qualityLevel minDistance
                 in if fs \<noteq> [] then [Flow p (toOcv V surface) fs fs] else [])
           else [Flow p (toOcv V surface) (mFeatures s) (mFeatures s)])
      | _ \<Rightarrow> [])"
  by (simp add: tick_calls_def update_def calls_findOpticalFlow split: option.splits)

lemma calls_update: "calls (update V t s) = calls s @ tick_calls V t s"
  by (simp add: tick_calls_eq update_def calls_findOpticalFlow split: option.splits)

lemma mPrevFrame_update:
  "mPrevFrame (update V t s) =
     (case mSurface (capture_step t s) of
        None \<Rightarrow> mPrevFrame s
      | Some surface \<Rightarrow> Some (toOcv V surface))"
  by (simp add: update_def findOpticalFlow_def Let_def split: option.splits)

lemma detect_args:
  "Detect f n q d \<in> set (tick_calls V t s) \<Longrightarrow>
   n = MAX_FEATURES \<and> q = qualityLevel \<and> d = minDistance"
  by (auto simp add: tick_calls_eq Let_def split: option.splits if_splits)

lemma update_without_surface:
  assumes "mSurface s = None" and "\<not> mCapture s \<or> newFrame t = None"
  shows "update V t s = s"
  using assms by (auto simp add: update_def capture_step_def findOpticalFlow_def)

subsection \<open>Runs and their invariants\<close>

lemma run_Nil: "run V r [] = setup_app r"
  by (simp add: run_def)

lemma run_snoc: "run V r (ticks @ [t]) = update V t (run V r ticks)"
  by (simp add: run_def)

lemma frames_inv_setup: "frames_inv (setup_app r)"
  by (simp add: frames_inv_def setup_app_def)

lemma frames_inv_update: "frames_inv s \<Longrightarrow> frames_inv (update V t s)"
  by (auto simp add: frames_inv_def update_def capture_step_def findOpticalFlow_def Let_def
      flow_step_def save_step_def detect_step_def split: option.splits prod.splits)

lemma frames_inv_run: "frames_inv (run V r ticks)"
  by (induction ticks rule: rev_induct)
     (simp_all add: run_Nil run_snoc frames_inv_setup frames_inv_update)

lemma stored_surface:
  assumes "frames_inv s" and "mPrevFrame s = Some p"
  shows "\<exists>surface. mSurface (capture_step t s) = Some surface"
proof -
  from assms obtain y where "mSurface s = Some y"
    by (auto simp add: frames_inv_def)
  then show ?thesis
    by (simp add: mSurface_capture_step split: option.splits)
qed

lemma lk_contractD:
  "lk_contract V \<Longrightarrow> calcOpticalFlowPyrLK V p c pp np = (nextPts, status, errors) \<Longrightarrow>
   length nextPts = length pp \<and> length status = length pp"
  unfolding lk_contract_def by (metis (mono_tags, lifting) case_prod_conv)

lemma lengths_inv_setup: "lengths_inv (setup_app r)"
  by (simp add: lengths_inv_def setup_app_def)

lemma lengths_inv_update:
  "lk_contract V \<Longrightarrow> lengths_inv s \<Longrightarrow> lengths_inv (update V t s)"
  by (auto simp add: lengths_inv_def update_def capture_step_def findOpticalFlow_def Let_def
      flow_step_def save_step_def detect_step_def split: option.splits prod.splits
      dest: lk_contractD)

lemma lengths_inv_run: "lk_contract V \<Longrightarrow> lengths_inv (run V r ticks)"
  by (induction ticks rule: rev_induct)
     (simp_all add: run_Nil run_snoc lengths_inv_setup lengths_inv_update)

lemma detect_args_run:
  "Detect f n q d \<in> set (calls (run V r ticks)) \<Longrightarrow>
   n = MAX_FEATURES \<and> q = qualityLevel \<and> d = minDistance"
proof (induction ticks rule: rev_induct)
  case Nil
  then show ?case
    by (simp add: run_Nil setup_app_def)
next
  case (snoc t ticks)
  then show ?case
    using detect_args [of f n q d V t "run V r ticks"]
    by (auto simp add: run_snoc calls_update)
qed

subsection \<open>The line loop of draw\<close>

lemma flow_lines_from:
  assumes "length feats \<le> length st" and "length feats \<le> length prev"
  shows "flow_lines feats prev st idx =
           Inr (concat (map (\<lambda>i. if st ! i \<noteq> 0 then [Vertex (feats ! i), Vertex (prev ! i)] else [])
                  [idx..<length feats]))"
  using assms
proof (induction feats prev st idx rule: flow_lines.induct)
  case (1 feats prev st idx)
  show ?case
  proof (cases "idx < length feats")
    case False
    then show ?thesis
      by (simp add: flow_lines.simps)
  next
    case True
    then have u: "[idx..<length feats] = idx # [idx + 1..<length feats]"
      by (simp add: upt_conv_Cons)
    have b: "idx < length st" "idx < length prev"
      using True "1.prems" by simp_all
    show ?thesis
    proof (cases "st ! idx \<noteq> 0")
      case True
      with "1.IH"(1) [OF \<open>idx < length feats\<close> b(1) True b(2) "1.prems"]
      show ?thesis
        using \<open>idx < length feats\<close> b
        by (subst flow_lines.simps) (simp add: u)
    next
      case False
      with "1.IH"(2) [OF \<open>idx < length feats\<close> b(1) _ "1.prems"]
      show ?thesis
        using \<open>idx < length feats\<close> b
        by (subst flow_lines.simps) (simp add: u)
    qed
  qed
qed

lemma line_vertices_append [simp]:
  "line_vertices (xs @ ys) = line_vertices xs @ line_vertices ys"
  by (simp add: line_vertices_def)

lemma line_vertices_Cons [simp]:
  "line_vertices (x # xs) = vertex_of x @ line_vertices xs"
  by (simp add: line_vertices_def)

lemma line_vertices_Nil [simp]: "line_vertices [] = []"
  by (simp add: line_vertices_def)

lemma line_vertices_stroked [simp]:
  "line_vertices (map (\<lambda>p. StrokedCircle p r) ps) = []"
  by (induction ps) simp_all

lemma line_vertices_solid [simp]:
  "line_vertices (map (\<lambda>p. SolidCircle p r) ps) = []"
  by (induction ps) simp_all

lemma line_vertices_segments:
  "line_vertices (concat (map (\<lambda>i. if P i then [Vertex (f i), Vertex (g i)] else []) is)) =
     concat (map (\<lambda>i. if P i then [f i, g i] else []) is)"
  by (induction "is") simp_all

lemma draw_defined:
  assumes "length (mFeatures s) \<le> length (mFeatureStatuses s)"
    and "length (mFeatures s) \<le> length (mPrevFeatures s)"
  shows "draw s \<noteq> Inl OutOfBounds"
  by (simp add: draw_def flow_lines_from [OF assms])

subsection \<open>Evaluating the concrete runs\<close>

lemma tick_fields [simp]:
  "elapsedFrames (frame_tick e f) = e"
  "newFrame (frame_tick e f) = Some f"
  "elapsedFrames (idle_tick e) = e"
  "newFrame (idle_tick e) = None"
  by (simp_all add: frame_tick_def idle_tick_def)

lemma shift_vision_fields [simp]:
  "toOcv shift_vision surface = surface"
  "goodFeaturesToTrack shift_vision img n q d = [(real img, 0)]"
  "calcOpticalFlowPyrLK shift_vision p c pp np =
     (map (\<lambda>(x, y). (x + 1, y)) pp, map (\<lambda>p. 1) pp, map (\<lambda>p. 0) pp)"
  by (simp_all add: shift_vision_def)

lemma lk_contract_shift_vision: "lk_contract shift_vision"
  by (simp add: lk_contract_def)

lemmas step_defs = update_def capture_step_def findOpticalFlow_def
  flow_step_def save_step_def detect_step_def Let_def
  MAX_FEATURES_def SAMPLE_WINDOW_MOD_def qualityLevel_def minDistance_def

lemma run_idle:
  "run shift_vision Started [idle_tick 1] =
     \<lparr> mCapture = True, mTexture = None, mPrevFeatures = [], mFeatures = [],
       mPrevFrame = None, mSurface = None, mFeatureStatuses = [], logged = [],
       calls = [] \<rparr>"
  by (simp add: run_def setup_app_def step_defs)

lemma run_one_frame:
  "run shift_vision Started [frame_tick 1 10] =
     \<lparr> mCapture = True, mTexture = Some 10, mPrevFeatures = [], mFeatures = [],
       mPrevFrame = Some 10, mSurface = Some 10, mFeatureStatuses = [], logged = [],
       calls = [] \<rparr>"
  by (simp add: run_def setup_app_def step_defs)

lemma run_two_frames:
  "run shift_vision Started [frame_tick 1 10, frame_tick 2 11] =
     \<lparr> mCapture = True, mTexture = Some 11, mPrevFeatures = [(11, 0)], mFeatures = [(12, 0)],
       mPrevFrame = Some 11, mSurface = Some 11, mFeatureStatuses = [1], logged = [],
       calls = [Detect 11 300 0.005 3, Flow 10 11 [(11, 0)] [(11, 0)]] \<rparr>"
  by (simp add: run_def setup_app_def step_defs)

lemma update_after_one_frame:
  "update shift_vision (frame_tick 2 11) (run shift_vision Started [frame_tick 1 10]) =
     \<lparr> mCapture = True, mTexture = Some 11, mPrevFeatures = [(11, 0)], mFeatures = [(12, 0)],
       mPrevFrame = Some 11, mSurface = Some 11, mFeatureStatuses = [1], logged = [],
       calls = [Detect 11 300 0.005 3, Flow 10 11 [(11, 0)] [(11, 0)]] \<rparr>"
  by (simp add: run_one_frame step_defs)

lemma idle_after_one_frame:
  "update shift_vision (idle_tick 2) (run shift_vision Started [frame_tick 1 10]) =
     \<lparr> mCapture = True, mTexture = Some 10, mPrevFeatures = [(10, 0)], mFeatures = [(11, 0)],
       mPrevFrame = Some 10, mSurface = Some 10, mFeatureStatuses = [1], logged = [],
       calls = [Detect 10 300 0.005 3, Flow 10 10 [(10, 0)] [(10, 0)]] \<rparr>"
  by (simp add: run_one_frame step_defs)

section \<open>Properties\<close>

subsection \<open>Re-detection and flow estimation\<close>

text \<open>
  C1. On every update tick of a run on which a previous frame is stored, the Feature
  Detector is invoked exactly when the current feature list is empty or the elapsed-frame
  counter modulo 300 is zero. On every other such tick the only call is one to the Flow
  Estimator, between the stored previous frame and the frame that becomes the new
  previous frame, on the current feature list (which is then non-empty).
\<close>

theorem redetect_or_flow:
  assumes "s = run V r ticks" and "mPrevFrame s = Some p"
  shows "((\<exists>c \<in> set (tick_calls V t s). is_detect c) \<longleftrightarrow>
            (mFeatures s = [] \<or> unat (elapsedFrames t) mod 300 = 0)) \<and>
         (\<not> (mFeatures s = [] \<or> unat (elapsedFrames t) mod 300 = 0) \<longrightarrow>
            (\<exists>c. mPrevFrame (update V t s) = Some c \<and>
                 tick_calls V t s = [Flow p c (mFeatures s) (mFeatures s)]))"
proof -
  have inv: "frames_inv s"
    using assms(1) by (simp add: frames_inv_run)
  from stored_surface [OF inv assms(2), of t]
  obtain surface where sf: "mSurface (capture_step t s) = Some surface" ..
  have "((\<exists>c \<in> set (tick_calls V t s). is_detect c) \<longleftrightarrow>
            (mFeatures s = [] \<or> unat (elapsedFrames t) mod SAMPLE_WINDOW_MOD = 0)) \<and>
         (\<not> (mFeatures s = [] \<or> unat (elapsedFrames t) mod SAMPLE_WINDOW_MOD = 0) \<longrightarrow>
            (\<exists>c. mPrevFrame (update V t s) = Some c \<and>
                 tick_calls V t s = [Flow p c (mFeatures s) (mFeatures s)]))"
    by (simp add: tick_calls_eq mPrevFrame_update sf assms(2) Let_def)
  then show ?thesis
    unfolding SAMPLE_WINDOW_MOD_def .
qed

text \<open>
  After two frames, a third frame at elapsed count 3 is tracked and one at elapsed count
  300 is re-detected.
\<close>

theorem redetect_or_flow_witness:
  "mPrevFrame (run shift_vision Started [frame_tick 1 10, frame_tick 2 11]) = Some 11 \<and>
   \<not> (\<exists>c \<in> set (tick_calls shift_vision (frame_tick 3 12)
                  (run shift_vision Started [frame_tick 1 10, frame_tick 2 11])). is_detect c) \<and>
   (\<exists>c. tick_calls shift_vision (frame_tick 3 12)
     (run shift_vision Started [frame_tick 1 10, frame_tick 2 11]) = [Flow 11 c [(12, 0)] [(12, 0)]]) \<and>
   (\<exists>c \<in> set (tick_calls shift_vision (frame_tick 300 12)
                  (run shift_vision Started [frame_tick 1 10, frame_tick 2 11])). is_detect c)"
proof -
  have p: "mPrevFrame (run shift_vision Started [frame_tick 1 10, frame_tick 2 11]) = Some 11"
    by (simp add: run_two_frames)
  have f: "mFeatures (run shift_vision Started [frame_tick 1 10, frame_tick 2 11]) = [(12, 0)]"
    by (simp add: run_two_frames)
  show ?thesis
    using redetect_or_flow [OF refl p, of "frame_tick 3 12"]
          redetect_or_flow [OF refl p, of "frame_tick 300 12"]
    by (auto simp add: p f)
qed

subsection \<open>The first frame\<close>

text \<open>
  C2. On the first update call of a run that receives a camera frame (no previous frame
  is stored), neither the Feature Detector nor the Flow Estimator is invoked, the frame
  is stored as the previous frame, and the feature lists are still empty.
\<close>

theorem first_frame_stored:
  assumes "s = run V r ticks" and "mPrevFrame s = None" and "mCapture s"
    and "newFrame t = Some frame"
  shows "tick_calls V t s = [] \<and> calls (update V t s) = [] \<and>
         mPrevFrame (update V t s) = Some (toOcv V frame) \<and>
         mFeatures (update V t s) = [] \<and> mPrevFeatures (update V t s) = []"
proof -
  have inv: "frames_inv s"
    using assms(1) by (simp add: frames_inv_run)
  with assms(2) have e: "mFeatures s = []" "mPrevFeatures s = []" "calls s = []"
    by (simp_all add: frames_inv_def)
  have sf: "mSurface (capture_step t s) = Some frame"
    using assms(3,4) by (simp add: mSurface_capture_step)
  have c: "tick_calls V t s = []"
    by (simp add: tick_calls_eq sf assms(2))
  have u: "update V t s = (capture_step t s)\<lparr> mPrevFrame := Some (toOcv V frame) \<rparr>"
    by (simp add: update_def findOpticalFlow_def sf assms(2))
  show ?thesis
    by (simp add: c u e)
qed

theorem first_frame_stored_witness:
  "mPrevFrame (run shift_vision Started [idle_tick 1]) = None \<and>
   mCapture (run shift_vision Started [idle_tick 1]) \<and>
   newFrame (frame_tick 2 (10::nat)) = Some 10 \<and>
   tick_calls shift_vision (frame_tick 2 10) (run shift_vision Started [idle_tick 1]) = [] \<and>
   mPrevFrame (update shift_vision (frame_tick 2 10) (run shift_vision Started [idle_tick 1]))
     = Some 10 \<and>
   mFeatures (update shift_vision (frame_tick 2 10) (run shift_vision Started [idle_tick 1]))
     = []"
proof -
  have p: "mPrevFrame (run shift_vision Started [idle_tick 1]) = None"
    by (simp add: run_idle)
  have c: "mCapture (run shift_vision Started [idle_tick 1])"
    by (simp add: run_idle)
  have n: "newFrame (frame_tick 2 (10::nat)) = Some 10"
    by simp
  show ?thesis
    using first_frame_stored [OF refl p c n] p c
    by simp
qed

subsection \<open>The feature lists after re-detection\<close>

text \<open>
  C3, as stated, fails: on a tick that re-detects, the estimator runs in the same call as
  soon as the detector has found a feature, so after the tick the previous features are
  the detected points and the current features are the estimator's output. Here the
  detector finds the point (11, 0) and the estimator moves it to (12, 0).
\<close>

theorem redetect_lists_differ:
  "Detect 11 300 0.005 3 \<in> set (tick_calls shift_vision (frame_tick 2 11)
       (run shift_vision Started [frame_tick 1 10])) \<and>
   mPrevFeatures (update shift_vision (frame_tick 2 11)
       (run shift_vision Started [frame_tick 1 10])) = [(11, 0)] \<and>
   mFeatures (update shift_vision (frame_tick 2 11)
       (run shift_vision Started [frame_tick 1 10])) = [(12, 0)] \<and>
   mPrevFeatures (update shift_vision (frame_tick 2 11)
       (run shift_vision Started [frame_tick 1 10])) \<noteq>
   mFeatures (update shift_vision (frame_tick 2 11)
       (run shift_vision Started [frame_tick 1 10]))"
  by (simp add: tick_calls_def update_after_one_frame) (simp add: run_one_frame)

text \<open>
  C3, amended. On every update tick on which re-detection occurs, the previous-feature
  list and the current-feature list are equal, both the freshly detected set, after the
  copy on line 166 and up to the flow-estimation call of the same tick. After the tick
  the previous-feature list is the detected set; the current-feature list equals it when
  the detector found nothing (the estimator is then not called), and otherwise is the
  estimator's output for the detected set.
\<close>

theorem redetect_then_flow:
  assumes "Detect c n q d \<in> set (tick_calls V t s)"
  shows "mFeatures (save_step (detect_step V (elapsedFrames t) c (capture_step t s)))
           = goodFeaturesToTrack V c n q d \<and>
         mPrevFeatures (save_step (detect_step V (elapsedFrames t) c (capture_step t s)))
           = goodFeaturesToTrack V c n q d \<and>
         mPrevFeatures (update V t s) = goodFeaturesToTrack V c n q d \<and>
         (goodFeaturesToTrack V c n q d = [] \<longrightarrow> mFeatures (update V t s) = []) \<and>
         (goodFeaturesToTrack V c n q d \<noteq> [] \<longrightarrow>
            (\<exists>p. mPrevFrame s = Some p \<and>
                 mFeatures (update V t s) =
                   fst (calcOpticalFlowPyrLK V p c
                          (goodFeaturesToTrack V c n q d) (goodFeaturesToTrack V c n q d))))"
proof -
  from assms have d: "Detect c n q d \<in> set (tick_calls V t s)" .
  then obtain surface where sf: "mSurface (capture_step t s) = Some surface"
    by (cases "mSurface (capture_step t s)") (simp_all add: tick_calls_eq)
  from d sf obtain p where pf: "mPrevFrame s = Some p"
    by (cases "mPrevFrame s") (simp_all add: tick_calls_eq)
  have rd: "mFeatures s = [] \<or> unat (elapsedFrames t) mod SAMPLE_WINDOW_MOD = 0"
    using d by (simp add: tick_calls_eq sf pf split: if_splits)
  have args: "c = toOcv V surface \<and> n = MAX_FEATURES \<and> q = qualityLevel \<and> d = minDistance"
    using d rd by (simp add: tick_calls_eq sf pf Let_def split: if_splits)
  have ds: "detect_step V (elapsedFrames t) c (capture_step t s) =
      (capture_step t s)\<lparr> mFeatures := goodFeaturesToTrack V c n q d,
         calls := calls s @ [Detect c n q d] \<rparr>"
    using rd args by (simp add: detect_step_def)
  have u: "update V t s =
      (flow_step V p c (save_step (detect_step V (elapsedFrames t) c (capture_step t s))))
        \<lparr> mPrevFrame := Some c \<rparr>"
    using args by (simp add: update_def findOpticalFlow_def sf pf Let_def)
  show ?thesis
    unfolding u ds
    by (simp add: pf save_step_def flow_step_def split: prod.splits)
qed

theorem redetect_then_flow_witness:
  "Detect 11 300 0.005 3 \<in> set (tick_calls shift_vision (frame_tick 2 11)
       (run shift_vision Started [frame_tick 1 10])) \<and>
   mPrevFeatures (update shift_vision (frame_tick 2 11)
       (run shift_vision Started [frame_tick 1 10])) =
     goodFeaturesToTrack shift_vision 11 300 0.005 3 \<and>
   goodFeaturesToTrack shift_vision 11 300 0.005 3 = [(11, 0)]"
proof -
  have h: "Detect 11 300 0.005 3 \<in> set (tick_calls shift_vision (frame_tick 2 11)
       (run shift_vision Started [frame_tick 1 10]))"
    by (simp add: tick_calls_def update_after_one_frame) (simp add: run_one_frame)
  show ?thesis
    using redetect_then_flow [OF h] h
    by simp
qed

subsection \<open>Ticks without a new frame\<close>

text \<open>
  C4, as stated, fails: \<open>update\<close> calls \<open>findOpticalFlow\<close> on every tick, and its guard
  tests only whether a surface is stored. After one captured frame, a tick on which the
  camera delivers nothing processes the stored surface again: the detector and the
  estimator are invoked and the feature lists change.
\<close>

theorem idle_tick_reprocesses:
  "newFrame (idle_tick 2 :: nat tick) = None \<and>
   tick_calls shift_vision (idle_tick 2) (run shift_vision Started [frame_tick 1 10]) =
     [Detect 10 300 0.005 3, Flow 10 10 [(10, 0)] [(10, 0)]] \<and>
   mFeatures (run shift_vision Started [frame_tick 1 10]) = [] \<and>
   mFeatures (update shift_vision (idle_tick 2) (run shift_vision Started [frame_tick 1 10])) =
     [(11, 0)]"
  by (simp add: tick_calls_def idle_after_one_frame) (simp add: run_one_frame)

text \<open>
  C4, amended. For every update tick of a run on which the camera delivers no new frame:
  when no surface is stored (no frame has been captured so far), the tick is a no-op, the
  whole state is unchanged and neither collaborator is invoked; when a surface is stored,
  the tick processes it again and invokes a collaborator.
\<close>

theorem idle_tick_noop:
  assumes "s = run V r ticks" and "newFrame t = None"
  shows "(mSurface s = None \<longrightarrow> update V t s = s \<and> tick_calls V t s = []) \<and>
         (mSurface s \<noteq> None \<longrightarrow> tick_calls V t s \<noteq> [])"
proof -
  have inv: "frames_inv s"
    using assms(1) by (simp add: frames_inv_run)
  have cs: "capture_step t s = s"
    using assms(2) by (simp add: capture_step_def)
  have a: "mSurface s = None \<longrightarrow> update V t s = s \<and> tick_calls V t s = []"
    by (simp add: tick_calls_eq update_def findOpticalFlow_def cs)
  have b: "mSurface s \<noteq> None \<longrightarrow> tick_calls V t s \<noteq> []"
    using inv by (auto simp add: frames_inv_def tick_calls_eq cs Let_def split: if_splits)
  from a b show ?thesis ..
qed

theorem idle_tick_noop_witness:
  "newFrame (idle_tick 2 :: nat tick) = None \<and>
   mSurface (run shift_vision Started [idle_tick 1]) = None \<and>
   update shift_vision (idle_tick 2) (run shift_vision Started [idle_tick 1]) =
     run shift_vision Started [idle_tick 1] \<and>
   mSurface (run shift_vision Started [frame_tick 1 10]) \<noteq> None \<and>
   tick_calls shift_vision (idle_tick 2) (run shift_vision Started [frame_tick 1 10]) \<noteq> []"
proof -
  have n: "newFrame (idle_tick 2 :: nat tick) = None"
    by simp
  have a: "mSurface (run shift_vision Started [idle_tick 1]) = None"
    by (simp add: run_idle)
  have b: "mSurface (run shift_vision Started [frame_tick 1 10]) \<noteq> None"
    by (simp add: run_one_frame)
  show ?thesis
    using idle_tick_noop [OF refl n, of shift_vision Started "[idle_tick 1]"]
          idle_tick_noop [OF refl n, of shift_vision Started "[frame_tick 1 10]"] a b
    by simp
qed

subsection \<open>Parallel sequences\<close>

text \<open>
  C5. Whenever flow has been computed on a tick, the current-feature sequence, the
  previous-feature sequence and the match-status sequence have equal length afterwards,
  the length of the sequence given to the Flow Estimator. The estimator is a library
  function: that it marks lost features in the status flags and does not resize is its
  contract \<open>lk_contract\<close>, assumed here.
\<close>

theorem flow_parallel_lengths:
  assumes "lk_contract V" and "Flow p c pp np \<in> set (tick_calls V t s)"
  shows "mPrevFeatures (update V t s) = pp \<and>
         length (mFeatures (update V t s)) = length pp \<and>
         length (mFeatureStatuses (update V t s)) = length pp"
proof -
  from assms(2) obtain surface where sf: "mSurface (capture_step t s) = Some surface"
    by (cases "mSurface (capture_step t s)") (simp_all add: tick_calls_eq)
  from assms(2) sf obtain p' where pf: "mPrevFrame s = Some p'"
    by (cases "mPrevFrame s") (simp_all add: tick_calls_eq)
  define pre where
    "pre = save_step (detect_step V (elapsedFrames t) (toOcv V surface) (capture_step t s))"
  have u: "update V t s =
      (flow_step V p' (toOcv V surface) pre)\<lparr> mPrevFrame := Some (toOcv V surface) \<rparr>"
    by (simp add: update_def findOpticalFlow_def sf pf Let_def pre_def)
  have same: "mPrevFeatures pre = mFeatures pre"
    by (simp add: pre_def save_step_def)
  have fl: "mFeatures pre \<noteq> [] \<and> pp = mFeatures pre"
    using assms(2)
    by (auto simp add: tick_calls_eq sf pf Let_def pre_def save_step_def detect_step_def
        split: if_splits)
  obtain nextPts status errors where
    r: "calcOpticalFlowPyrLK V p' (toOcv V surface) (mFeatures pre) (mFeatures pre) =
          (nextPts, status, errors)"
    by (cases "calcOpticalFlowPyrLK V p' (toOcv V surface) (mFeatures pre) (mFeatures pre)")
  from lk_contractD [OF assms(1) r]
  have len: "length nextPts = length (mFeatures pre)" "length status = length (mFeatures pre)"
    by simp_all
  show ?thesis
    unfolding u using fl len
    by (simp add: flow_step_def same r)
qed

theorem flow_parallel_lengths_witness:
  "lk_contract shift_vision \<and>
   Flow 10 11 [(11, 0)] [(11, 0)] \<in> set (tick_calls shift_vision (frame_tick 2 11)
       (run shift_vision Started [frame_tick 1 10])) \<and>
   mPrevFeatures (update shift_vision (frame_tick 2 11)
       (run shift_vision Started [frame_tick 1 10])) = [(11, 0)] \<and>
   length (mFeatures (update shift_vision (frame_tick 2 11)
       (run shift_vision Started [frame_tick 1 10]))) = 1 \<and>
   length (mFeatureStatuses (update shift_vision (frame_tick 2 11)
       (run shift_vision Started [frame_tick 1 10]))) = 1"
proof -
  have h: "Flow 10 11 [(11, 0)] [(11, 0)] \<in> set (tick_calls shift_vision (frame_tick 2 11)
       (run shift_vision Started [frame_tick 1 10]))"
    by (simp add: tick_calls_def update_after_one_frame) (simp add: run_one_frame)
  show ?thesis
    using flow_parallel_lengths [OF lk_contract_shift_vision h] h lk_contract_shift_vision
    by simp
qed

subsection \<open>Flow lines\<close>

text \<open>
  C6. In the draw step, for every index i into the current-feature list, the two end
  points currentFeatures[i] and previousFeatures[i] of a flow-line segment are emitted if
  and only if matchStatus[i] is nonzero; a feature whose status is zero produces no line.
  The vertices that \<open>draw\<close> emits are exactly those of the indices with a nonzero status,
  in index order, when the status and previous-feature vectors are at least as long as
  the current-feature vector (otherwise the reads are out of range).
\<close>

theorem status_gates_lines:
  assumes "length (mFeatures s) \<le> length (mFeatureStatuses s)"
    and "length (mFeatures s) \<le> length (mPrevFeatures s)"
  shows "\<exists>out. draw s = Inr out \<and>
           line_vertices out =
             concat (map (\<lambda>i. if mFeatureStatuses s ! i \<noteq> 0
                               then [mFeatures s ! i, mPrevFeatures s ! i] else [])
                      [0..<length (mFeatures s)])"
  by (simp add: draw_def flow_lines_from [OF assms] line_vertices_segments split: option.splits)

theorem status_gates_lines_witness:
  "length (mFeatures (tracked_pair :: (nat, nat) app))
     \<le> length (mFeatureStatuses (tracked_pair :: (nat, nat) app)) \<and>
   length (mFeatures (tracked_pair :: (nat, nat) app))
     \<le> length (mPrevFeatures (tracked_pair :: (nat, nat) app)) \<and>
   (\<exists>out. draw (tracked_pair :: (nat, nat) app) = Inr out \<and>
          line_vertices out = [(1, 0), (0, 0)])"
proof -
  have a: "length (mFeatures (tracked_pair :: (nat, nat) app))
      \<le> length (mFeatureStatuses (tracked_pair :: (nat, nat) app))"
    by (simp add: tracked_pair_def)
  have b: "length (mFeatures (tracked_pair :: (nat, nat) app))
      \<le> length (mPrevFeatures (tracked_pair :: (nat, nat) app))"
    by (simp add: tracked_pair_def)
  show ?thesis
    using status_gates_lines [OF a b] a b
    by (simp add: tracked_pair_def)
qed

subsection \<open>Arguments of the detector\<close>

text \<open>
  C7. Every invocation of the Feature Detector in a run requests at most 300 feature
  points and passes the quality level 0.005 and the minimum distance 3.0.
\<close>

theorem detector_arguments:
  assumes "Detect f n q d \<in> set (calls (run V r ticks))"
  shows "n = 300 \<and> q = 0.005 \<and> d = 3.0"
  using detect_args_run [OF assms]
  by (simp add: MAX_FEATURES_def qualityLevel_def minDistance_def)

theorem detector_arguments_witness:
  "Detect 11 300 0.005 3.0 \<in>
     set (calls (run shift_vision Started [frame_tick 1 10, frame_tick 2 11])) \<and>
   (300::nat) = 300 \<and> (0.005::real) = 0.005 \<and> (3.0::real) = 3.0"
proof -
  have h: "Detect 11 300 0.005 3.0 \<in>
     set (calls (run shift_vision Started [frame_tick 1 10, frame_tick 2 11]))"
    by (simp add: run_two_frames)
  show ?thesis
    using detector_arguments [OF h] h by simp
qed

subsection \<open>Capture failure\<close>

text \<open>
  C8. When camera-capture initialisation fails in \<open>setup\<close>, the exception is caught and
  logged exactly once and execution continues; from then on every update tick leaves the
  whole state as \<open>setup\<close> left it and invokes neither the Feature Detector nor the Flow
  Estimator. When \<open>Capture::create\<close> threw, the handle is null and this holds whatever the
  ticks are; when \<open>start\<close> threw, the handle is set, and it holds for the ticks on which
  the capture that never started reports no new frame.
\<close>

theorem capture_failure_noop:
  assumes "r \<noteq> Started" and "r = StartThrows \<longrightarrow> (\<forall>t \<in> set ticks. newFrame t = None)"
  shows "run V r ticks = setup_app r \<and>
         logged (run V r ticks) = [''Failed to init capture ''] \<and>
         calls (run V r ticks) = [] \<and>
         mPrevFrame (run V r ticks) = None \<and>
         mFeatures (run V r ticks) = [] \<and>
         mPrevFeatures (run V r ticks) = [] \<and>
         mFeatureStatuses (run V r ticks) = []"
proof -
  have "run V r ticks = setup_app r"
    using assms(2)
  proof (induction ticks rule: rev_induct)
    case Nil
    show ?case
      by (simp add: run_Nil)
  next
    case (snoc t ticks)
    then have ih: "run V r ticks = setup_app r"
      by simp
    have "\<not> mCapture (setup_app r :: ('a, 'b) app) \<or> newFrame t = None"
      using snoc.prems assms(1) by (cases r) (simp_all add: setup_app_def)
    then have "update V t (setup_app r) = setup_app r"
      by (intro update_without_surface) (simp_all add: setup_app_def)
    then show ?case
      by (simp add: run_snoc ih)
  qed
  then show ?thesis
    using assms(1) by (simp add: setup_app_def)
qed

text \<open>
  With a null handle the frames the camera would deliver are never looked at; with a
  handle that failed to start, two ticks without a frame.
\<close>

theorem capture_failure_noop_witness:
  "CreateThrows \<noteq> Started \<and>
   run shift_vision CreateThrows [frame_tick 1 10, frame_tick 2 11] = setup_app CreateThrows \<and>
   logged (run shift_vision CreateThrows [frame_tick 1 10, frame_tick 2 11]) =
     [''Failed to init capture ''] \<and>
   calls (run shift_vision CreateThrows [frame_tick 1 10, frame_tick 2 11]) = [] \<and>
   StartThrows \<noteq> Started \<and>
   newFrame (idle_tick 1 :: nat tick) = None \<and>
   newFrame (idle_tick 2 :: nat tick) = None \<and>
   run shift_vision StartThrows [idle_tick 1, idle_tick 2] = setup_app StartThrows"
proof -
  have a: "CreateThrows \<noteq> Started" "StartThrows \<noteq> Started"
    by simp_all
  have b: "CreateThrows = StartThrows \<longrightarrow>
      (\<forall>t \<in> set [frame_tick 1 10, frame_tick 2 (11::nat)]. newFrame t = None)"
    by simp
  have c: "StartThrows = StartThrows \<longrightarrow>
      (\<forall>t \<in> set [idle_tick 1, idle_tick 2 :: nat tick]. newFrame t = None)"
    by simp
  show ?thesis
    using capture_failure_noop [OF a(1) b, of shift_vision]
          capture_failure_noop [OF a(2) c, of shift_vision]
    by (simp add: setup_app_def)
qed

subsection \<open>The status reads of draw\<close>

text \<open>
  C9. After every update tick of a run, either the current feature list is empty or the
  match-status list is at least as long as the current feature list, so the line loop of
  \<open>draw\<close>, which indexes the status list at every index of the current feature list
  without a bounds check, never reads out of bounds. The lengths come from the Flow
  Estimator, whose contract \<open>lk_contract\<close> is assumed.
\<close>

theorem status_reads_in_bounds:
  assumes "lk_contract V"
  shows "(mFeatures (run V r ticks) = [] \<or>
          length (mFeatures (run V r ticks)) \<le> length (mFeatureStatuses (run V r ticks))) \<and>
         draw (run V r ticks) \<noteq> Inl OutOfBounds"
proof -
  have inv: "lengths_inv (run V r ticks)"
    using assms by (rule lengths_inv_run)
  then have a: "length (mFeatures (run V r ticks)) \<le> length (mFeatureStatuses (run V r ticks))"
    and b: "length (mFeatures (run V r ticks)) \<le> length (mPrevFeatures (run V r ticks))"
    by (auto simp add: lengths_inv_def)
  from a draw_defined [OF a b] show ?thesis
    by simp
qed

theorem status_reads_in_bounds_witness:
  "lk_contract shift_vision \<and>
   length (mFeatures (run shift_vision Started [frame_tick 1 10, frame_tick 2 11])) \<le>
     length (mFeatureStatuses (run shift_vision Started [frame_tick 1 10, frame_tick 2 11])) \<and>
   mFeatures (run shift_vision Started [frame_tick 1 10, frame_tick 2 11]) = [(12, 0)] \<and>
   draw (run shift_vision Started [frame_tick 1 10, frame_tick 2 11]) \<noteq> Inl OutOfBounds"
  using status_reads_in_bounds [OF lk_contract_shift_vision, of Started
      "[frame_tick 1 10, frame_tick 2 11]"] lk_contract_shift_vision
  by (simp add: run_two_frames)

subsection \<open>Mouse events\<close>

text \<open>
  C10. The mouseDown handler leaves the entire application state unchanged for every
  mouse event: the stored frames, the feature lists and the match statuses are exactly
  as they were before the event.
\<close>

theorem mouseDown_unchanged: "mouseDown event s = s"
  by (simp add: mouseDown_def)

end
